theory Spec2Isabelle
  imports Complex_Main "HOL-Library.Word"
begin

unbundle bit_operations_syntax

section \<open>GGA hardware daemon: battery gauge, arcade buttons, main loop\<close>

text \<open>
  The C sources are embedded as pure functions. What a system call returns is an
  argument of the function that makes the call (the return value of \<open>ioctl\<close>,
  \<open>write\<close>, \<open>read\<close> and \<open>open\<close>, and the bytes a read delivers);
  what a function sends to a sink is a list of actions it returns. A C \<open>double\<close>
  is modelled as a \<open>real\<close>: rounding of the floating-point operations is not
  modelled. \<open>uint16_t\<close> is \<open>16 word\<close>, \<open>unsigned int\<close> is \<open>32 word\<close>, and a C
  \<open>int\<close> that only holds small values is an \<open>int\<close>.
\<close>

type_synonym u8 = "8 word"
type_synonym u16 = "16 word"
type_synonym u32 = "32 word"

subsection \<open>battery\_gauge.h, battery\_gauge.c\<close>

definition BUS_VOLTAGE_RANGE_16V_5A :: u8 where "BUS_VOLTAGE_RANGE_16V_5A = 0x00"
definition BUS_VOLTAGE_RANGE_23V_2A :: u8 where "BUS_VOLTAGE_RANGE_23V_2A = 0x01"

definition GAIN_DIV_2_80MV :: u16 where "GAIN_DIV_2_80MV = 0x01"
definition GAIN_DIV_8_320MV :: u16 where "GAIN_DIV_8_320MV = 0x03"

definition INA219_MODE :: u16 where "INA219_MODE = 0x07"
definition BUS_ADC_RESOLUTION :: u16 where "BUS_ADC_RESOLUTION = 0x0D"
definition SHUNT_ADC_RESOLUTION :: u16 where "SHUNT_ADC_RESOLUTION = 0x0D"

record ina219_config =
  i2c_bus :: int
  cal_value :: u16
  bus_voltage :: u16
  gain :: u16
  current_lsb :: real
  power_lsb :: real

text \<open>
  The outcome of the two SMBus transactions one getter makes: the return value of the
  \<open>ioctl\<close> that writes the calibration register, the return value of the \<open>ioctl\<close>
  that reads the data register, and the \<open>data.word\<close> that read filled in.
\<close>

record smbus_io =
  write_ret :: int
  read_ret :: int
  read_data :: u16

text \<open>The byte swap both helpers apply to the word on the wire.\<close>

definition swap_bytes :: "u16 \<Rightarrow> u16" where
  "swap_bytes w = push_bit 8 (w AND 0x00FF) OR drop_bit 8 (w AND 0xFF00)"

text \<open>\<open>i2c_write_word\<close>: the word put on the wire, and the status returned.\<close>

definition i2c_write_data :: "u16 \<Rightarrow> u16" where
  "i2c_write_data v = swap_bytes v"

definition i2c_write_word :: "int \<Rightarrow> int" where
  "i2c_write_word ioctl_ret = (if ioctl_ret < 0 then - 1 else 0)"

definition i2c_read_word :: "int \<Rightarrow> u16 \<Rightarrow> int" where
  "i2c_read_word ioctl_ret data_word =
     (if ioctl_ret < 0 then - 1 else uint (swap_bytes data_word))"

definition config_data :: "ina219_config \<Rightarrow> u16" where
  "config_data chip =
     push_bit 13 (bus_voltage chip) OR push_bit 11 (gain chip)
       OR push_bit 7 BUS_ADC_RESOLUTION OR push_bit 3 SHUNT_ADC_RESOLUTION OR INA219_MODE"

definition configure_ina219 :: "int \<Rightarrow> int \<Rightarrow> int" where
  "configure_ina219 cal_ioctl_ret config_ioctl_ret =
     (if i2c_write_word cal_ioctl_ret < 0 then - 1
      else if i2c_write_word config_ioctl_ret < 0 then - 2
      else 0)"

text \<open>
  \<open>initialize_ina219\<close>: \<open>None\<close> is the NULL return. The arguments after the
  voltage range are the descriptor \<open>open\<close> returned and the return values of the
  \<open>I2C_SLAVE\<close> ioctl and of the two configuration writes.
\<close>

definition initialize_ina219 :: "u8 \<Rightarrow> int \<Rightarrow> int \<Rightarrow> int \<Rightarrow> int \<Rightarrow> ina219_config option" where
  "initialize_ina219 bus_voltage_range open_ret slave_ret cal_ioctl_ret config_ioctl_ret =
     (if bus_voltage_range = BUS_VOLTAGE_RANGE_23V_2A then
        (if open_ret < 0 then None
         else if slave_ret \<noteq> 0 then None
         else if configure_ina219 cal_ioctl_ret config_ioctl_ret < 0 then None
         else Some \<lparr>i2c_bus = open_ret, cal_value = 4096,
                     bus_voltage = ucast BUS_VOLTAGE_RANGE_23V_2A, gain = GAIN_DIV_8_320MV,
                     current_lsb = 0.1, power_lsb = 0.002\<rparr>)
      else if bus_voltage_range = BUS_VOLTAGE_RANGE_16V_5A then
        (if open_ret < 0 then None
         else if slave_ret \<noteq> 0 then None
         else if configure_ina219 cal_ioctl_ret config_ioctl_ret < 0 then None
         else Some \<lparr>i2c_bus = open_ret, cal_value = 26868,
                     bus_voltage = ucast BUS_VOLTAGE_RANGE_16V_5A, gain = GAIN_DIV_2_80MV,
                     current_lsb = 0.1524, power_lsb = 0.003048\<rparr>)
      else None)"

definition get_shunt_voltage :: "ina219_config \<Rightarrow> smbus_io \<Rightarrow> real" where
  "get_shunt_voltage chip io =
     (if i2c_write_word (write_ret io) < 0 then - 255.0
      else
        let val = i2c_read_word (read_ret io) (read_data io);
            val = (if val > 32767 then val - 65535 else val)
        in real_of_int val * 0.00001)"

text \<open>\<open>val >> 3\<close> on a C \<open>int\<close> is the arithmetic shift: \<open>drop_bit\<close> on \<open>int\<close>.\<close>

definition get_bus_voltage :: "ina219_config \<Rightarrow> smbus_io \<Rightarrow> real" where
  "get_bus_voltage chip io =
     (if i2c_write_word (write_ret io) < 0 then - 255.0
      else
        let val = i2c_read_word (read_ret io) (read_data io)
        in real_of_int (drop_bit 3 val) * 0.004)"

definition get_current :: "ina219_config \<Rightarrow> smbus_io \<Rightarrow> real" where
  "get_current chip io =
     (if i2c_write_word (write_ret io) < 0 then - 255.0
      else
        let val = i2c_read_word (read_ret io) (read_data io);
            val = (if val > 32767 then val - 65535 else val)
        in real_of_int val * current_lsb chip)"

definition get_power :: "ina219_config \<Rightarrow> smbus_io \<Rightarrow> real" where
  "get_power chip io =
     (if i2c_write_word (write_ret io) < 0 then - 255.0
      else
        let val = i2c_read_word (read_ret io) (read_data io);
            val = (if val > 32767 then val - 65535 else val)
        in real_of_int val * power_lsb chip)"

text \<open>
  \<open>estimate_battery_percentage\<close>, in two layers: \<open>battery_fraction\<close> is its body
  from the value \<open>get_bus_voltage\<close> returned, and \<open>estimate_battery_percentage\<close>
  makes the call.
\<close>

definition battery_fraction :: "real \<Rightarrow> real \<Rightarrow> real" where
  "battery_fraction battery_min_volts bus_volts =
     (let batt = (bus_volts - battery_min_volts) / 3.6
      in if batt > 1 then 1.0 else if batt < 0 then 0.0 else batt)"

definition estimate_battery_percentage :: "real \<Rightarrow> ina219_config \<Rightarrow> smbus_io \<Rightarrow> real" where
  "estimate_battery_percentage battery_min_volts chip io =
     battery_fraction battery_min_volts (get_bus_voltage chip io)"

subsection \<open>arcade\_buttons.h, arcade\_buttons.c\<close>

definition ARCADE_BUTTONS_COUNT :: nat where "ARCADE_BUTTONS_COUNT = 14"

definition BUTTON_1A :: u16 where "BUTTON_1A = 0x0001"
definition BUTTON_1B :: u16 where "BUTTON_1B = 0x0002"
definition BUTTON_1C :: u16 where "BUTTON_1C = 0x0004"
definition BUTTON_1D :: u16 where "BUTTON_1D = 0x0008"
definition BUTTON_1E :: u16 where "BUTTON_1E = 0x0010"
definition BUTTON_1F :: u16 where "BUTTON_1F = 0x0020"
definition PAD_DOWN :: u16 where "PAD_DOWN = 0x0100"
definition PAD_UP :: u16 where "PAD_UP = 0x0200"
definition PAD_RIGHT :: u16 where "PAD_RIGHT = 0x0400"
definition PAD_LEFT :: u16 where "PAD_LEFT = 0x0800"
definition STICK_RIGHT :: u16 where "STICK_RIGHT = 0x1000"
definition STICK_LEFT :: u16 where "STICK_LEFT = 0x2000"
definition STICK_DOWN :: u16 where "STICK_DOWN = 0x4000"
definition STICK_UP :: u16 where "STICK_UP = 0x8000"

text \<open>The bonnet structure: the bus descriptor and the stored button mask.\<close>

record arcade_bonnet =
  bonnet_i2c_bus :: int
  state :: u16

text \<open>
  \<open>read_buttons_pressed\<close>: \<open>write_n\<close> and \<open>read_n\<close> are what \<open>write\<close> and
  \<open>read\<close> returned, and the four bytes are \<open>buf[0..3]\<close> after the read. The result
  is the return value and the bonnet as the call leaves it.
\<close>

definition read_buttons_pressed ::
    "arcade_bonnet \<Rightarrow> int \<Rightarrow> int \<Rightarrow> u8 \<times> u8 \<times> u8 \<times> u8 \<Rightarrow> int \<times> arcade_bonnet" where
  "read_buttons_pressed bonnet write_n read_n buf =
     (let old_state = state bonnet in
      if write_n \<noteq> 1 then (- 1, bonnet)
      else if read_n \<noteq> 4 then (- 1, bonnet)
      else
        (case buf of (b0, b1, b2, b3) \<Rightarrow>
           let val = (ucast b2 :: u16) OR push_bit 8 (ucast b3);
               bonnet' = bonnet\<lparr>state := val\<rparr>
           in (if state bonnet' \<noteq> old_state then 1 else 0, bonnet')))"

subsection \<open>main.c: configuration\<close>

definition BATTERY_UPDATE_INTERVAL :: u32 where "BATTERY_UPDATE_INTERVAL = 200"
definition BATTERY_SAMPLE_BUFFER :: nat where "BATTERY_SAMPLE_BUFFER = 128"
definition BATTERY_MIN_VOLTAGE :: real where "BATTERY_MIN_VOLTAGE = 9.0"
definition BATTERY_CAPACITY_MAH :: real where "BATTERY_CAPACITY_MAH = 2500"
definition BATTERY_SHUTDOWN_LIMIT :: real where "BATTERY_SHUTDOWN_LIMIT = 0.1"

text \<open>The key codes are the symbolic names of the input-event header.\<close>

datatype keycode =
  KEY_LEFTCTRL | KEY_S | KEY_ENTER | KEY_Y | KEY_ESC | KEY_X
  | KEY_9 | KEY_2 | KEY_1 | KEY_8
  | KEY_UP | KEY_DOWN | KEY_RIGHT | KEY_LEFT

definition KEYCODES :: "keycode list" where
  "KEYCODES =
     [KEY_LEFTCTRL, KEY_S, KEY_ENTER, KEY_Y, KEY_ESC, KEY_X,
      KEY_9, KEY_2, KEY_1, KEY_8,
      KEY_UP, KEY_DOWN, KEY_RIGHT, KEY_LEFT]"

subsection \<open>main.c: the buttons callback\<close>

text \<open>
  What \<open>libevdev_uinput_write_event\<close> is given: a key event with its value (the C
  truth value \<open>pressed\<close>, as a \<open>bool\<close>), or the \<open>SYN_REPORT\<close> that ends a batch.
\<close>

datatype input_event = EV_KEY keycode bool | EV_SYN

definition check_press_button :: "u16 \<Rightarrow> u16 \<Rightarrow> u16 \<Rightarrow> keycode \<Rightarrow> input_event list" where
  "check_press_button button change current key =
     (if change AND button \<noteq> 0 then
        (let pressed = (current AND button = 0) in [EV_KEY key pressed])
      else [])"

definition button_handler :: "u16 \<Rightarrow> u16 \<Rightarrow> input_event list" where
  "button_handler last_state curr_state =
     (let changes = last_state XOR curr_state in
        check_press_button BUTTON_1A changes curr_state (KEYCODES ! 0)
      @ check_press_button BUTTON_1B changes curr_state (KEYCODES ! 1)
      @ check_press_button BUTTON_1C changes curr_state (KEYCODES ! 2)
      @ check_press_button BUTTON_1D changes curr_state (KEYCODES ! 3)
      @ check_press_button BUTTON_1E changes curr_state (KEYCODES ! 4)
      @ check_press_button BUTTON_1F changes curr_state (KEYCODES ! 5)
      @ check_press_button PAD_DOWN changes curr_state (KEYCODES ! 6)
      @ check_press_button PAD_UP changes curr_state (KEYCODES ! 7)
      @ check_press_button PAD_RIGHT changes curr_state (KEYCODES ! 8)
      @ check_press_button PAD_LEFT changes curr_state (KEYCODES ! 9)
      @ check_press_button STICK_RIGHT changes curr_state (KEYCODES ! 10)
      @ check_press_button STICK_LEFT changes curr_state (KEYCODES ! 11)
      @ check_press_button STICK_DOWN changes curr_state (KEYCODES ! 12)
      @ check_press_button STICK_UP changes curr_state (KEYCODES ! 13)
      @ [EV_SYN])"

text \<open>
  The fourteen logical buttons in the order \<open>button_handler\<close> checks them, each with
  the key it is reported under.
\<close>

definition button_table :: "(u16 \<times> keycode) list" where
  "button_table =
     [(BUTTON_1A, KEY_LEFTCTRL), (BUTTON_1B, KEY_S), (BUTTON_1C, KEY_ENTER),
      (BUTTON_1D, KEY_Y), (BUTTON_1E, KEY_ESC), (BUTTON_1F, KEY_X),
      (PAD_DOWN, KEY_9), (PAD_UP, KEY_2), (PAD_RIGHT, KEY_1), (PAD_LEFT, KEY_8),
      (STICK_RIGHT, KEY_UP), (STICK_LEFT, KEY_DOWN), (STICK_DOWN, KEY_RIGHT),
      (STICK_UP, KEY_LEFT)]"

subsection \<open>main.c: the battery callback\<close>

text \<open>The globals \<open>batt_charging_last\<close> and \<open>batt_percentage_last\<close>, both \<open>-1\<close> at start.\<close>

record handler_globals =
  batt_charging_last :: int
  batt_percentage_last :: int

definition initial_globals :: handler_globals where
  "initial_globals = \<lparr>batt_charging_last = - 1, batt_percentage_last = - 1\<rparr>"

text \<open>
  What the callback does to the outside: it writes the status file, writes the capacity
  file, and calls \<open>reboot(LINUX_REBOOT_CMD_POWER_OFF)\<close>.
\<close>

datatype sink_action = Write_status string | Write_capacity int | Power_off

text \<open>
  What the outside gives one call of the callback: whether \<open>open\<close> of the status
  file and of the capacity file succeeds (each is only asked when the file is opened);
  what the \<open>reboot\<close> call does, \<open>None\<close> when it powers the machine off and so does
  not return, \<open>Some r\<close> when it fails and returns \<open>r\<close>; and what the cast
  \<open>(int)\<close> yields for a rounded value outside the range of \<open>int\<close>, which C leaves
  undefined.
\<close>

record handler_env =
  status_open_ok :: bool
  capacity_open_ok :: bool
  reboot_ret :: "int option"
  cast_overflow :: int

text \<open>
  How a call of the callback ends: it returns to the loop, the process exits with a
  status, or the machine has been powered off.
\<close>

datatype handler_result = Returned handler_globals | Exited int | Powered_off

text \<open>C's \<open>round\<close>: to the nearest integer, halves away from zero.\<close>

definition c_round :: "real \<Rightarrow> int" where
  "c_round x = (if 0 \<le> x then \<lfloor>x + 1 / 2\<rfloor> else \<lceil>x - 1 / 2\<rceil>)"

text \<open>The cast \<open>(int)\<close> of an integral \<open>double\<close>, for a 32-bit \<open>int\<close>.\<close>

definition int_cast :: "int \<Rightarrow> int \<Rightarrow> int" where
  "int_cast overflow v =
     (if - 2147483648 \<le> v \<and> v \<le> 2147483647 then v else overflow)"

text \<open>
  \<open>battery_handler\<close>. The return value of \<open>reboot\<close> is not tested: when the call
  returns, the callback returns to the loop with its globals as they stand.
\<close>

definition battery_handler ::
    "handler_env \<Rightarrow> handler_globals \<Rightarrow> real \<Rightarrow> int \<Rightarrow> sink_action list \<times> handler_result" where
  "battery_handler env g percentage charging =
     (let p = int_cast (cast_overflow env) (c_round (percentage * 100)) in
      if charging \<noteq> batt_charging_last g \<and> \<not> status_open_ok env then ([], Exited (- 1))
      else
        let a1 = (if charging \<noteq> batt_charging_last g
                  then [Write_status (if charging \<noteq> 0 then ''Charging'' else ''Discharging'')]
                  else []);
            g1 = (if charging \<noteq> batt_charging_last g
                  then g\<lparr>batt_charging_last := charging\<rparr> else g)
        in
        if p \<noteq> batt_percentage_last g1 \<and> \<not> capacity_open_ok env then (a1, Exited (- 1))
        else
          let a2 = (if p \<noteq> batt_percentage_last g1 then [Write_capacity p] else []);
              g2 = (if p \<noteq> batt_percentage_last g1
                    then g1\<lparr>batt_percentage_last := p\<rparr> else g1)
          in
          if percentage \<le> BATTERY_SHUTDOWN_LIMIT \<and> charging = 0
          then (case reboot_ret env of
                  None \<Rightarrow> (a1 @ a2 @ [Power_off], Powered_off)
                | Some r \<Rightarrow> (a1 @ a2 @ [Power_off], Returned g2))
          else (a1 @ a2, Returned g2))"

subsection \<open>main.c: the battery path of the loop\<close>

text \<open>The locals \<open>last_capacity\<close> and \<open>battery_current_history\<close> of \<open>main\<close>.\<close>

record charge_state =
  last_capacity :: real
  battery_current_history :: "real list"

text \<open>
  The shift loop \<open>for (i = BATTERY_SAMPLE_BUFFER - 1; i > 0; i--)\<close>:
  \<open>shift_history i h charging\<close> runs it from index \<open>i\<close> down to 1. The array has
  \<open>BATTERY_SAMPLE_BUFFER\<close> entries, so every index the loop touches is in range; the
  properties below are stated for lists of that length.
\<close>

fun shift_history :: "nat \<Rightarrow> real list \<Rightarrow> int \<Rightarrow> real list \<times> int" where
  "shift_history 0 h charging = (h, charging)"
| "shift_history (Suc k) h charging =
     (let h' = h[Suc k := h ! k]
      in shift_history k h' (if h' ! Suc k > 0 then 1 else charging))"

text \<open>
  The body of \<open>if (ms_passed >= BATTERY_UPDATE_INTERVAL)\<close> from the sample on (\<open>3.6e6\<close> is written \<open>3600000\<close>):
  the new state, and the percentage and charging flag given to \<open>battery_handler\<close>.
\<close>

definition integrate_sample :: "charge_state \<Rightarrow> real \<Rightarrow> u32 \<Rightarrow> charge_state \<times> real \<times> int" where
  "integrate_sample st current ms_passed =
     (let new_capacity = last_capacity st + current * (real (unat ms_passed) / 3600000);
          h0 = (battery_current_history st)[0 := current];
          (h, charging) = shift_history (BATTERY_SAMPLE_BUFFER - 1) h0 0
      in (\<lparr>last_capacity = new_capacity, battery_current_history = h\<rparr>,
          new_capacity / BATTERY_CAPACITY_MAH, charging))"

text \<open>The same body with its two sensor reads; the shunt voltage read is not used.\<close>

definition battery_update ::
    "ina219_config \<Rightarrow> charge_state \<Rightarrow> smbus_io \<Rightarrow> smbus_io \<Rightarrow> u32 \<Rightarrow> charge_state \<times> real \<times> int" where
  "battery_update chip st shunt_io current_io ms_passed =
     (let shunt_voltage = get_shunt_voltage chip shunt_io;
          current = get_current chip current_io
      in integrate_sample st current ms_passed)"

text \<open>The state \<open>main\<close> sets up before the loop, from one bus voltage read.\<close>

definition initial_charge_state :: "ina219_config \<Rightarrow> smbus_io \<Rightarrow> charge_state" where
  "initial_charge_state chip io =
     \<lparr>last_capacity =
        estimate_battery_percentage BATTERY_MIN_VOLTAGE chip io * BATTERY_CAPACITY_MAH,
      battery_current_history = replicate BATTERY_SAMPLE_BUFFER 0\<rparr>"

text \<open>
  What one pass of the loop is given on its battery path: the elapsed time the clock
  gives, what the two sensor reads deliver, and what the callback meets.
\<close>

record tick_input =
  ms_passed :: u32
  shunt_io :: smbus_io
  current_io :: smbus_io
  callback_env :: handler_env

datatype loop_end = Running charge_state handler_globals | Exit_failure int | System_off

text \<open>
  The battery path of one pass of \<open>for (;;)\<close>: the actions it performs, and how the
  run stands after it. The loop has no \<open>break\<close>: a pass whose callback returns is
  followed by the next pass.
\<close>

definition battery_pass ::
    "ina219_config \<Rightarrow> charge_state \<Rightarrow> handler_globals \<Rightarrow> tick_input
       \<Rightarrow> sink_action list \<times> loop_end" where
  "battery_pass chip st g t =
     (if ms_passed t \<ge> BATTERY_UPDATE_INTERVAL then
        (case battery_update chip st (shunt_io t) (current_io t) (ms_passed t) of
           (st', percentage, charging) \<Rightarrow>
             (case battery_handler (callback_env t) g percentage charging of
                (acts, Returned g') \<Rightarrow> (acts, Running st' g')
              | (acts, Exited c) \<Rightarrow> (acts, Exit_failure c)
              | (acts, Powered_off) \<Rightarrow> (acts, System_off)))
      else ([], Running st g))"

text \<open>
  The loop over the passes it is given: the actions it performs, in order, and how the
  run stands after them.
\<close>

fun battery_loop ::
    "ina219_config \<Rightarrow> charge_state \<Rightarrow> handler_globals \<Rightarrow> tick_input list
       \<Rightarrow> sink_action list \<times> loop_end" where
  "battery_loop chip st g [] = ([], Running st g)"
| "battery_loop chip st g (t # ts) =
     (case battery_pass chip st g t of
        (acts, Running st' g') \<Rightarrow>
          (case battery_loop chip st' g' ts of (rest, e) \<Rightarrow> (acts @ rest, e))
      | (acts, Exit_failure c) \<Rightarrow> (acts, Exit_failure c)
      | (acts, System_off) \<Rightarrow> (acts, System_off))"

text \<open>Feeding the estimator a list of samples, each with its elapsed time.\<close>

fun push_samples :: "charge_state \<Rightarrow> int \<Rightarrow> (real \<times> u32) list \<Rightarrow> charge_state \<times> int" where
  "push_samples st charging [] = (st, charging)"
| "push_samples st charging ((current, ms) # rest) =
     (case integrate_sample st current ms of
        (st', percentage, charging') \<Rightarrow> push_samples st' charging' rest)"

section \<open>Properties\<close>

lemmas arcade_buttons_defs =
  BUTTON_1A_def BUTTON_1B_def BUTTON_1C_def BUTTON_1D_def BUTTON_1E_def BUTTON_1F_def
  PAD_DOWN_def PAD_UP_def PAD_RIGHT_def PAD_LEFT_def
  STICK_RIGHT_def STICK_LEFT_def STICK_DOWN_def STICK_UP_def

subsection \<open>Coulomb integration\<close>

text \<open>
  Claim C3, as the code has it. One integration step adds
  \<open>current * ms_passed / 3600000\<close> to the capacity, for every prior capacity, sample
  and elapsed time. With a current of 100 mA and 3600 ms elapsed, a capacity of 1000 mAh
  becomes 1000.1 mAh (3600 ms are 3.6 s, a thousandth of an hour); it becomes 1100 mAh
  when 3600000 ms have elapsed.
\<close>

theorem integration_step:
  "last_capacity (fst (integrate_sample st current ms))
     = last_capacity st + current * real (unat ms) / 3600000
   \<and> last_capacity (fst (integrate_sample
        \<lparr>last_capacity = 1000, battery_current_history = h\<rparr> 100 3600)) = 1000.1
   \<and> last_capacity (fst (integrate_sample
        \<lparr>last_capacity = 1000, battery_current_history = h\<rparr> 100 3600000)) = 1100"
  by (simp add: integrate_sample_def Let_def split_beta)

text \<open>
  The example of claim C3 as the claim words it does not hold: 100 mA over 3600 ms from
  1000 mAh does not give 1100 mAh.
\<close>

theorem integration_example_counterexample:
  "last_capacity (fst (integrate_sample
      \<lparr>last_capacity = 1000, battery_current_history = replicate 128 0\<rparr> 100 3600)) \<noteq> 1100"
  by (simp add: integrate_sample_def Let_def split_beta)

subsection \<open>The seed percentage\<close>

lemma battery_fraction_bounds: "0 \<le> battery_fraction m v \<and> battery_fraction m v \<le> 1"
  by (simp add: battery_fraction_def Let_def)

lemma battery_fraction_mono: "v1 \<le> v2 \<Longrightarrow> battery_fraction m v1 \<le> battery_fraction m v2"
  by (simp add: battery_fraction_def Let_def divide_right_mono)

lemma estimate_battery_percentage_bounds:
  "0 \<le> estimate_battery_percentage m chip io \<and> estimate_battery_percentage m chip io \<le> 1"
  by (simp add: estimate_battery_percentage_def battery_fraction_bounds)

text \<open>
  Claim C8. For bus voltages \<open>v1 \<le> v2\<close> between the minimum voltage \<open>m\<close> and
  \<open>m + 3.6\<close>, the seed percentage is \<open>(v - m) / 3.6\<close>, lies in \<open>[0, 1]\<close>, and
  is no smaller at \<open>v2\<close> than at \<open>v1\<close>; \<open>estimate_battery_percentage\<close> is this
  percentage at the voltage \<open>get_bus_voltage\<close> returns.
\<close>

theorem seed_percentage_bounded_monotone:
  assumes "m \<le> v1" and "v1 \<le> v2" and "v2 \<le> m + 3.6"
  shows "0 \<le> battery_fraction m v1 \<and> battery_fraction m v1 \<le> 1
       \<and> 0 \<le> battery_fraction m v2 \<and> battery_fraction m v2 \<le> 1
       \<and> battery_fraction m v1 \<le> battery_fraction m v2
       \<and> battery_fraction m v1 = (v1 - m) / 3.6
       \<and> battery_fraction m v2 = (v2 - m) / 3.6
       \<and> estimate_battery_percentage m chip io = battery_fraction m (get_bus_voltage chip io)"
proof -
  have "(v1 - m) / 3.6 \<le> 1" "0 \<le> (v1 - m) / 3.6" "(v2 - m) / 3.6 \<le> 1" "0 \<le> (v2 - m) / 3.6"
    using assms by simp_all
  hence "battery_fraction m v1 = (v1 - m) / 3.6" "battery_fraction m v2 = (v2 - m) / 3.6"
    unfolding battery_fraction_def Let_def by auto
  thus ?thesis
    using battery_fraction_bounds battery_fraction_mono [OF assms(2)]
    by (simp add: estimate_battery_percentage_def)
qed

theorem seed_percentage_bounded_monotone_witness:
  "(9::real) \<le> 10 \<and> (10::real) \<le> 12 \<and> (12::real) \<le> 9 + 3.6
   \<and> battery_fraction 9 10 \<le> battery_fraction 9 12
   \<and> battery_fraction 9 10 = 5 / 18 \<and> battery_fraction 9 12 = 5 / 6"
  using seed_percentage_bounded_monotone [of 9 10 12] by simp

subsection \<open>Reading the buttons\<close>

lemma read_buttons_pressed_success:
  "read_buttons_pressed bonnet 1 4 (b0, b1, b2, b3) =
     (if (ucast b2 OR push_bit 8 (ucast b3)) \<noteq> state bonnet then 1 else 0,
      bonnet\<lparr>state := ucast b2 OR push_bit 8 (ucast b3)\<rparr>)"
  by (simp add: read_buttons_pressed_def Let_def)

text \<open>
  Claim C9. When the register write does not write its one byte, or the read does not
  deliver its four bytes, \<open>read_buttons_pressed\<close> returns \<open>-1\<close> and the bonnet,
  its stored mask included, is as it was before the call.
\<close>

theorem read_buttons_pressed_failure_keeps_state:
  assumes "write_n \<noteq> 1 \<or> read_n \<noteq> 4"
  shows "read_buttons_pressed bonnet write_n read_n buf = (- 1, bonnet)"
  using assms by (auto simp: read_buttons_pressed_def Let_def)

theorem read_buttons_pressed_failure_keeps_state_witness:
  "read_buttons_pressed \<lparr>bonnet_i2c_bus = 3, state = 0xFFFF\<rparr> 1 (- 1) (0, 0, 0, 0)
     = (- 1, \<lparr>bonnet_i2c_bus = 3, state = 0xFFFF\<rparr>)
   \<and> read_buttons_pressed \<lparr>bonnet_i2c_bus = 3, state = 0xFFFF\<rparr> (- 1) 4 (0, 0, 0xFE, 0xFF)
     = (- 1, \<lparr>bonnet_i2c_bus = 3, state = 0xFFFF\<rparr>)"
  using read_buttons_pressed_failure_keeps_state
          [of 1 "- 1" "\<lparr>bonnet_i2c_bus = 3, state = 0xFFFF\<rparr>" "(0, 0, 0, 0)"]
        read_buttons_pressed_failure_keeps_state
          [of "- 1" 4 "\<lparr>bonnet_i2c_bus = 3, state = 0xFFFF\<rparr>" "(0, 0, 0xFE, 0xFF)"]
  by simp

subsection \<open>Negative register values\<close>

lemma sint_high:
  assumes "32768 \<le> uint (w::u16)"
  shows "sint w = uint w - 65536"
proof -
  have u: "uint w = sint w mod 65536"
    using uint_sint [of w] by (simp add: take_bit_eq_mod)
  have lo: "- 32768 \<le> sint w" using sint_ge [of w] by simp
  have hi: "sint w < 32768" using sint_lt [of w] by simp
  show ?thesis
  proof (cases "sint w < 0")
    case True
    have "(sint w + 65536) mod 65536 = sint w + 65536"
      using lo True by (intro mod_pos_pos_trivial) linarith+
    hence "sint w mod 65536 = sint w + 65536" by simp
    thus ?thesis using u by linarith
  next
    case False
    hence "sint w mod 65536 = sint w" using hi by (intro mod_pos_pos_trivial) linarith+
    thus ?thesis using u hi assms by linarith
  qed
qed

text \<open>
  Claim C10. When the calibration write succeeds and the register read delivers the
  16-bit word \<open>w\<close> with \<open>32768 \<le> w\<close>, \<open>get_current\<close> returns
  \<open>(w - 65535) * current_lsb\<close> and \<open>get_shunt_voltage\<close> returns
  \<open>(w - 65535) * 0.00001\<close>. That factor is one more than the two's-complement value
  \<open>sint w\<close> of the word, so the word \<open>0xFFFF\<close> gives 0.
\<close>

theorem negative_readings_off_by_one:
  assumes "0 \<le> write_ret io"
    and "i2c_read_word (read_ret io) (read_data io) = uint w"
    and "32768 \<le> uint (w::u16)"
  shows "get_current chip io = real_of_int (uint w - 65535) * current_lsb chip
       \<and> get_shunt_voltage chip io = real_of_int (uint w - 65535) * 0.00001
       \<and> uint w - 65535 = sint w + 1
       \<and> (if w = 0xFFFF then get_current chip io = 0 \<and> get_shunt_voltage chip io = 0
          else get_current chip io = real_of_int (sint w + 1) * current_lsb chip)"
proof -
  have wr: "\<not> i2c_write_word (write_ret io) < 0"
    using assms(1) by (simp add: i2c_write_word_def)
  have big: "uint w > 32767" using assms(3) by linarith
  have c: "get_current chip io = real_of_int (uint w - 65535) * current_lsb chip"
    unfolding get_current_def Let_def assms(2) using wr big by simp
  have s: "get_shunt_voltage chip io = real_of_int (uint w - 65535) * 0.00001"
    unfolding get_shunt_voltage_def Let_def assms(2) using wr big by simp
  have t: "uint w - 65535 = sint w + 1"
    using sint_high [OF assms(3)] by linarith
  have z: "w = 0xFFFF \<Longrightarrow> uint w - 65535 = 0" by simp
  have f: "if w = 0xFFFF then get_current chip io = 0 \<and> get_shunt_voltage chip io = 0
          else get_current chip io = real_of_int (sint w + 1) * current_lsb chip"
  proof (cases "w = 0xFFFF")
    case True
    with z have "uint w - 65535 = 0" by blast
    with c s have "get_current chip io = 0 \<and> get_shunt_voltage chip io = 0" by simp
    thus ?thesis using True by (simp only: if_P)
  next
    case False
    from c t have "get_current chip io = real_of_int (sint w + 1) * current_lsb chip"
      by (simp only:)
    thus ?thesis using False by simp
  qed
  from c s t f show ?thesis by (intro conjI)
qed

theorem negative_readings_off_by_one_witness:
  "get_current \<lparr>i2c_bus = 3, cal_value = 26868, bus_voltage = 0, gain = 1,
                 current_lsb = 0.1524, power_lsb = 0.003048\<rparr>
               \<lparr>write_ret = 0, read_ret = 0, read_data = 0xFFFF\<rparr> = 0
   \<and> get_shunt_voltage \<lparr>i2c_bus = 3, cal_value = 26868, bus_voltage = 0, gain = 1,
                 current_lsb = 0.1524, power_lsb = 0.003048\<rparr>
               \<lparr>write_ret = 0, read_ret = 0, read_data = 0xFFFF\<rparr> = 0"
proof -
  have r: "i2c_read_word (read_ret \<lparr>write_ret = 0, read_ret = 0, read_data = 0xFFFF\<rparr>)
             (read_data \<lparr>write_ret = 0, read_ret = 0, read_data = 0xFFFF\<rparr>) = uint (0xFFFF :: u16)"
    by (simp add: i2c_read_word_def swap_bytes_def)
  have w: "0 \<le> write_ret \<lparr>write_ret = 0, read_ret = 0, read_data = 0xFFFF\<rparr>" by simp
  have h: "32768 \<le> uint (0xFFFF :: u16)" by simp
  show ?thesis
    using negative_readings_off_by_one [OF w r h] by simp
qed

subsection \<open>The button diff\<close>

lemma xor_zero_iff: "(x XOR y = 0) = (x = y)" for x y :: u16
proof
  assume "x XOR y = 0"
  hence "x XOR (x XOR y) = x XOR 0" by (simp only:)
  thus "x = y" by simp
next
  assume "x = y" thus "x XOR y = 0" by simp
qed

lemma changed_bit_iff: "((l XOR c) AND b \<noteq> 0) = (l AND b \<noteq> c AND b)" for l c b :: u16
proof -
  have "(l XOR c) AND b = (l AND b) XOR (c AND b)"
    by (simp add: bit.conj_xor_distrib2)
  thus ?thesis by (simp only: xor_zero_iff)
qed

lemma count_check_press_button:
  "count_list (check_press_button b ch cur key) (EV_KEY k p) =
     (if ch AND b \<noteq> 0 \<and> key = k \<and> (cur AND b = 0) = p then 1 else 0)"
  by (simp add: check_press_button_def Let_def)

lemma button_handler_table:
  "button_handler l c =
     concat (map (\<lambda>(b, k). check_press_button b (l XOR c) c k) button_table) @ [EV_SYN]"
  by (simp add: button_handler_def button_table_def KEYCODES_def Let_def)

lemma count_list_concat_map:
  "count_list (concat (map f xs)) x = sum_list (map (\<lambda>e. count_list (f e) x) xs)"
  by (induction xs) simp_all

lemma sum_single_key:
  "distinct (map snd tbl) \<Longrightarrow> (b, k) \<in> set tbl \<Longrightarrow>
     sum_list (map (\<lambda>e. if P (fst e) \<and> snd e = k then (1::nat) else 0) tbl)
       = (if P b then 1 else 0)"
proof (induction tbl)
  case Nil
  then show ?case by simp
next
  case (Cons e tbl)
  show ?case
  proof (cases "(b, k) = e")
    case True
    have "snd e \<notin> snd ` set tbl" using Cons.prems(1) by simp
    hence "k \<notin> snd ` set tbl" using True by (metis snd_conv)
    hence "\<forall>x \<in> set tbl. snd x \<noteq> k" by (metis imageI)
    hence "sum_list (map (\<lambda>e. if P (fst e) \<and> snd e = k then (1::nat) else 0) tbl) = 0"
      by simp
    thus ?thesis using True by auto
  next
    case False
    hence mem: "(b, k) \<in> set tbl" using Cons.prems(2) by auto
    hence "k \<in> snd ` set tbl" by (metis imageI snd_conv)
    moreover have "snd e \<notin> snd ` set tbl" using Cons.prems(1) by simp
    ultimately have "snd e \<noteq> k" by metis
    moreover have "sum_list (map (\<lambda>e. if P (fst e) \<and> snd e = k then (1::nat) else 0) tbl)
        = (if P b then 1 else 0)"
      using Cons.IH Cons.prems(1) mem by simp
    ultimately show ?thesis by simp
  qed
qed

lemma distinct_keys: "distinct (map snd button_table)"
  by (simp add: button_table_def)

lemma count_button_handler:
  assumes "(b, k) \<in> set button_table"
  shows "count_list (button_handler l c) (EV_KEY k p) =
       (if l AND b \<noteq> c AND b \<and> (c AND b = 0) = p then 1 else 0)"
proof -
  have "count_list (button_handler l c) (EV_KEY k p) =
      sum_list (map (\<lambda>e. if ((l XOR c) AND fst e \<noteq> 0 \<and> (c AND fst e = 0) = p) \<and> snd e = k
                            then (1::nat) else 0) button_table)"
    unfolding button_handler_table count_list_append count_list_concat_map
    by (simp add: count_check_press_button case_prod_beta conj_commute conj_left_commute)
  also have "\<dots> = (if (l XOR c) AND b \<noteq> 0 \<and> (c AND b = 0) = p then 1 else 0)"
    by (rule sum_single_key [OF distinct_keys assms,
          of "\<lambda>b'. (l XOR c) AND b' \<noteq> 0 \<and> (c AND b' = 0) = p"])
  finally show ?thesis by (simp only: changed_bit_iff)
qed

lemma button_handler_events_listed:
  "button_handler l c =
     concat (map (\<lambda>(b, k). if l AND b \<noteq> c AND b then [EV_KEY k (c AND b = 0)] else [])
               button_table) @ [EV_SYN]"
proof -
  have "(\<lambda>(b, k). check_press_button b (l XOR c) c k)
      = (\<lambda>(b, k). if l AND b \<noteq> c AND b then [EV_KEY k (c AND b = 0)] else [])"
    by (simp add: fun_eq_iff check_press_button_def Let_def changed_bit_iff)
  thus ?thesis by (simp only: button_handler_table)
qed

text \<open>
  Claim C2, as the code has it. The masks are the raw words of the chip, where a
  cleared bit is a button held down. For each of the fourteen buttons \<open>(b, k)\<close> whose
  bit differs between the two masks, \<open>button_handler\<close> emits exactly one key event,
  and its pressed flag is true iff the bit is cleared in the new mask; for a button whose
  bit does not differ it emits none. The events come in the order of the table and are
  followed by one \<open>EV_SYN\<close>. From \<open>0x0000\<close> to \<open>0x0001\<close> the one key event is
  \<open>BUTTON_1A\<close> released; from \<open>0x0001\<close> to \<open>0x0000\<close> it is \<open>BUTTON_1A\<close>
  pressed.
\<close>

theorem button_handler_events:
  assumes "(b, k) \<in> set button_table"
  shows "count_list (button_handler last_state curr_state) (EV_KEY k (curr_state AND b = 0))
           = (if last_state AND b \<noteq> curr_state AND b then 1 else 0)
       \<and> count_list (button_handler last_state curr_state) (EV_KEY k (curr_state AND b \<noteq> 0)) = 0
       \<and> button_handler last_state curr_state =
           concat (map (\<lambda>(b, k). if last_state AND b \<noteq> curr_state AND b
                                  then [EV_KEY k (curr_state AND b = 0)] else [])
                     button_table) @ [EV_SYN]
       \<and> length button_table = ARCADE_BUTTONS_COUNT
       \<and> button_handler 0x0000 0x0001 = [EV_KEY KEY_LEFTCTRL False, EV_SYN]
       \<and> button_handler 0x0001 0x0000 = [EV_KEY KEY_LEFTCTRL True, EV_SYN]"
proof -
  have a: "count_list (button_handler last_state curr_state) (EV_KEY k (curr_state AND b = 0))
           = (if last_state AND b \<noteq> curr_state AND b then 1 else 0)"
    by (simp add: count_button_handler [OF assms])
  have b: "count_list (button_handler last_state curr_state) (EV_KEY k (curr_state AND b \<noteq> 0)) = 0"
    by (simp add: count_button_handler [OF assms])
  have c: "length button_table = ARCADE_BUTTONS_COUNT"
    by (simp add: button_table_def ARCADE_BUTTONS_COUNT_def)
  have d: "button_handler 0x0000 0x0001 = [EV_KEY KEY_LEFTCTRL False, EV_SYN]"
    by (simp add: button_handler_def check_press_button_def KEYCODES_def arcade_buttons_defs)
  have e: "button_handler 0x0001 0x0000 = [EV_KEY KEY_LEFTCTRL True, EV_SYN]"
    by (simp add: button_handler_def check_press_button_def KEYCODES_def arcade_buttons_defs)
  from a b button_handler_events_listed [of last_state curr_state] c d e
  show ?thesis by (intro conjI)
qed

theorem button_handler_events_witness:
  "(BUTTON_1A, KEY_LEFTCTRL) \<in> set button_table
   \<and> count_list (button_handler 0x0001 0x0000) (EV_KEY KEY_LEFTCTRL True) = 1
   \<and> count_list (button_handler 0x0001 0x0000) (EV_KEY KEY_LEFTCTRL False) = 0"
proof -
  have m: "(BUTTON_1A, KEY_LEFTCTRL) \<in> set button_table"
    by (simp add: button_table_def)
  have "count_list (button_handler 0x0001 0x0000) (EV_KEY KEY_LEFTCTRL (0x0000 AND BUTTON_1A = 0))
           = (if 0x0001 AND BUTTON_1A \<noteq> 0x0000 AND BUTTON_1A then 1 else 0)
       \<and> count_list (button_handler 0x0001 0x0000)
           (EV_KEY KEY_LEFTCTRL (0x0000 AND BUTTON_1A \<noteq> 0)) = 0"
    using button_handler_events [OF m, of "0x0001" "0x0000"] by blast
  thus ?thesis using m by (simp add: BUTTON_1A_def)
qed

text \<open>
  The example of claim C2 as the claim words it does not hold: from \<open>0x0000\<close> to
  \<open>0x0001\<close> no event with the pressed flag true is emitted for \<open>BUTTON_1A\<close>;
  the event emitted carries the flag false.
\<close>

theorem button_example_counterexample:
  "count_list (button_handler 0x0000 0x0001) (EV_KEY KEY_LEFTCTRL True) = 0
   \<and> button_handler 0x0000 0x0001 \<noteq> [EV_KEY KEY_LEFTCTRL True, EV_SYN]"
  by (simp add: button_handler_def check_press_button_def KEYCODES_def arcade_buttons_defs)

subsection \<open>The sliding window of current samples\<close>

lemma shift_history_closed:
  "k < length h \<Longrightarrow>
     shift_history k h chg =
       (take 1 h @ take k h @ drop (Suc k) h,
        if \<exists>x \<in> set (take k h). 0 < x then 1 else chg)"
proof (induction k arbitrary: h chg)
  case 0
  then show ?case by (cases h) simp_all
next
  case (Suc k)
  let ?h = "h[Suc k := h ! k]"
  have len: "k < length ?h" using Suc.prems by simp
  have nth: "?h ! Suc k = h ! k" using Suc.prems by simp
  have t1: "take 1 ?h = take 1 h" by simp
  have tk: "take k ?h = take k h" by simp
  have dr: "drop (Suc k) ?h = h ! k # drop (Suc (Suc k)) h"
    using Suc.prems by (simp flip: Cons_nth_drop_Suc [of "Suc k" ?h])
  have ts: "take (Suc k) h = take k h @ [h ! k]"
    using Suc.prems by (simp add: take_Suc_conv_app_nth)
  have "shift_history (Suc k) h chg = shift_history k ?h (if 0 < h ! k then 1 else chg)"
    by (simp add: Let_def nth del: list_update.simps)
  also have "\<dots> = (take 1 ?h @ take k ?h @ drop (Suc k) ?h,
        if \<exists>x \<in> set (take k ?h). 0 < x then 1 else (if 0 < h ! k then 1 else chg))"
    by (rule Suc.IH [OF len])
  also have "\<dots> = (take 1 h @ take (Suc k) h @ drop (Suc (Suc k)) h,
        if \<exists>x \<in> set (take (Suc k) h). 0 < x then 1 else chg)"
    unfolding t1 tk dr ts by auto
  finally show ?case .
qed

lemma integrate_sample_closed:
  assumes "length (battery_current_history st) = 128"
  shows "integrate_sample st c ms =
     (\<lparr>last_capacity = last_capacity st + c * (real (unat ms) / 3600000),
       battery_current_history = c # c # take 126 (tl (battery_current_history st))\<rparr>,
      (last_capacity st + c * (real (unat ms) / 3600000)) / BATTERY_CAPACITY_MAH,
      if \<exists>x \<in> set (c # c # take 126 (tl (battery_current_history st))). 0 < x then 1 else 0)"
proof -
  obtain x xs where h: "battery_current_history st = x # xs" and lx: "length xs = 127"
    using assms by (cases "battery_current_history st") simp_all
  have l: "127 < length ((x # xs)[0 := c])" using lx by simp
  have "shift_history 127 ((x # xs)[0 := c]) 0 =
      (c # c # take 126 xs, if \<exists>x \<in> set (c # take 126 xs). 0 < x then 1 else 0)"
    unfolding shift_history_closed [OF l] using lx
    by (simp add: take_Suc_Cons [of 126, simplified])
  thus ?thesis
    by (simp add: integrate_sample_def BATTERY_SAMPLE_BUFFER_def Let_def h)
qed


lemma integrate_sample_length:
  "length (battery_current_history st) = 128 \<Longrightarrow>
     length (battery_current_history (fst (integrate_sample st c ms))) = 128"
  by (simp add: integrate_sample_closed)

lemma push_samples_length:
  "length (battery_current_history st) = 128 \<Longrightarrow>
     length (battery_current_history (fst (push_samples st chg xs))) = 128"
proof (induction xs arbitrary: st chg)
  case Nil
  then show ?case by simp
next
  case (Cons a xs)
  obtain c ms where a: "a = (c, ms)" by (cases a)
  obtain st' p chg' where i: "integrate_sample st c ms = (st', p, chg')"
    by (cases "integrate_sample st c ms")
  have "length (battery_current_history st') = 128"
    using integrate_sample_length [OF Cons.prems, of c ms] i by simp
  from Cons.IH [OF this] show ?case by (simp add: a i)
qed

lemma push_samples_append:
  "push_samples st chg (xs @ ys) =
     (case push_samples st chg xs of (st', chg') \<Rightarrow> push_samples st' chg' ys)"
proof (induction xs arbitrary: st chg)
  case Nil
  then show ?case by simp
next
  case (Cons a xs)
  obtain c ms where a: "a = (c, ms)" by (cases a)
  obtain st' p chg' where i: "integrate_sample st c ms = (st', p, chg')"
    by (cases "integrate_sample st c ms")
  show ?case by (simp add: a i Cons.IH)
qed

lemma window_prefix_step:
  assumes "set (take k h) \<subseteq> {c}"
  shows "set (take (Suc k) (c # c # take 126 (tl h))) \<subseteq> {c}"
proof (cases k)
  case 0
  then show ?thesis by simp
next
  case (Suc j)
  show ?thesis
  proof (cases h)
    case Nil
    then show ?thesis using Suc by simp
  next
    case (Cons x xs)
    have "set (take j xs) \<subseteq> {c}" using assms Suc Cons by simp
    moreover have "set (take j (take 126 xs)) \<subseteq> set (take j xs)"
      by (simp add: set_take_subset_set_take)
    ultimately show ?thesis using Suc Cons by auto
  qed
qed

lemma push_constant_prefix:
  "length (battery_current_history st) = 128 \<Longrightarrow>
   set (take k (battery_current_history st)) \<subseteq> {c} \<Longrightarrow>
     set (take (k + length mss)
        (battery_current_history (fst (push_samples st chg (map (Pair c) mss))))) \<subseteq> {c}"
proof (induction mss arbitrary: st chg k)
  case Nil
  then show ?case by simp
next
  case (Cons m mss)
  let ?st = "fst (integrate_sample st c m)"
  have h: "battery_current_history ?st = c # c # take 126 (tl (battery_current_history st))"
    by (simp add: integrate_sample_closed [OF Cons.prems(1)])
  have l: "length (battery_current_history ?st) = 128"
    by (rule integrate_sample_length [OF Cons.prems(1)])
  have p: "set (take (Suc k) (battery_current_history ?st)) \<subseteq> {c}"
    unfolding h by (rule window_prefix_step [OF Cons.prems(2)])
  have "push_samples st chg (map (Pair c) (m # mss)) =
      push_samples ?st (snd (snd (integrate_sample st c m))) (map (Pair c) mss)"
    by (simp add: split_beta)
  thus ?case using Cons.IH [OF l p] by simp
qed

lemma push_constant_flag:
  assumes len: "length (battery_current_history st) = 128" and n: "length mss = 128"
  shows "snd (push_samples st chg (map (Pair c) mss)) = (if 0 < c then 1 else 0)"
proof -
  obtain ms0 m where mss: "mss = ms0 @ [m]" and l0: "length ms0 = 127"
    using n by (cases mss rule: rev_cases) simp_all
  obtain st' chg' where p: "push_samples st chg (map (Pair c) ms0) = (st', chg')"
    by (cases "push_samples st chg (map (Pair c) ms0)")
  have l': "length (battery_current_history st') = 128"
    using push_samples_length [OF len, of chg "map (Pair c) ms0"] p by simp
  have "set (take (0 + length ms0) (battery_current_history st')) \<subseteq> {c}"
    using push_constant_prefix [OF len, of 0 c ms0 chg] p by simp
  hence pre: "set (take 127 (battery_current_history st')) \<subseteq> {c}" using l0 by simp
  have "set (take 126 (tl (battery_current_history st'))) \<subseteq> {c}"
  proof (cases "battery_current_history st'")
    case Nil
    then show ?thesis by simp
  next
    case (Cons x xs)
    then show ?thesis using pre by (simp add: take_Suc_Cons [of 126, simplified])
  qed
  hence flag: "snd (snd (integrate_sample st' c m)) = (if 0 < c then 1 else 0)"
    unfolding integrate_sample_closed [OF l'] by auto
  have "push_samples st chg (map (Pair c) mss) = push_samples st' chg' [(c, m)]"
    by (simp add: mss push_samples_append p)
  thus ?thesis using flag by (simp add: split_beta)
qed

text \<open>
  Claim C5. After an update, the charging flag is 1 iff some sample in the window, as
  the update leaves it, is strictly positive, and 0 otherwise; the window keeps its 128
  entries. After 128 updates with the sample 5.0 the flag is 1, and after 128 further
  updates with the sample -5.0 it is 0, whatever the elapsed times and the state before.
\<close>

theorem charging_flag_window:
  assumes "length (battery_current_history st) = BATTERY_SAMPLE_BUFFER"
    and "length mss = 128" and "length mss' = 128"
  shows "snd (snd (integrate_sample st c ms))
           = (if \<exists>x \<in> set (battery_current_history (fst (integrate_sample st c ms))). 0 < x
              then 1 else 0)
       \<and> length (battery_current_history (fst (integrate_sample st c ms))) = BATTERY_SAMPLE_BUFFER
       \<and> snd (push_samples st chg (map (Pair 5) mss)) = 1
       \<and> snd (push_samples st chg (map (Pair 5) mss @ map (Pair (- 5)) mss')) = 0"
proof -
  have len: "length (battery_current_history st) = 128"
    using assms(1) by (simp add: BATTERY_SAMPLE_BUFFER_def)
  have a: "snd (snd (integrate_sample st c ms))
           = (if \<exists>x \<in> set (battery_current_history (fst (integrate_sample st c ms))). 0 < x
              then 1 else 0)"
    by (simp add: integrate_sample_closed [OF len])
  have b: "length (battery_current_history (fst (integrate_sample st c ms))) = BATTERY_SAMPLE_BUFFER"
    by (simp add: integrate_sample_length [OF len] BATTERY_SAMPLE_BUFFER_def)
  have c: "snd (push_samples st chg (map (Pair 5) mss)) = 1"
    by (simp add: push_constant_flag [OF len assms(2)])
  obtain st' chg' where p: "push_samples st chg (map (Pair 5) mss) = (st', chg')"
    by (cases "push_samples st chg (map (Pair 5) mss)")
  have l': "length (battery_current_history st') = 128"
    using push_samples_length [OF len, of chg "map (Pair 5) mss"] p by simp
  have d: "snd (push_samples st chg (map (Pair 5) mss @ map (Pair (- 5)) mss')) = 0"
    by (simp add: push_samples_append p push_constant_flag [OF l' assms(3)])
  from a b c d show ?thesis by (intro conjI)
qed

theorem charging_flag_window_witness:
  "snd (push_samples \<lparr>last_capacity = 1000, battery_current_history = replicate 128 0\<rparr> 0
         (map (Pair 5) (replicate 128 200))) = 1
   \<and> snd (push_samples \<lparr>last_capacity = 1000, battery_current_history = replicate 128 0\<rparr> 0
         (map (Pair 5) (replicate 128 200) @ map (Pair (- 5)) (replicate 128 200))) = 0"
  using charging_flag_window
    [of "\<lparr>last_capacity = 1000, battery_current_history = replicate 128 0\<rparr>"
        "replicate 128 200" "replicate 128 200" 0 200 0]
  by (simp add: BATTERY_SAMPLE_BUFFER_def)

text \<open>
  Claim C4, evaluated on the code. The first update of the zero-initialised window of
  \<open>main\<close> with the sample 5.0 leaves the window as \<open>5, 5, 0, \<dots>, 0\<close>: the
  sample is stored before the shift loop runs, so the loop copies it from entry 0 into
  entry 1. The window then holds the new sample twice and 126 prior entries, not the new
  sample once followed by the 127 most recent prior samples.
\<close>

theorem window_update_duplicates_sample:
  "battery_current_history (fst (integrate_sample
      \<lparr>last_capacity = 1000, battery_current_history = replicate 128 0\<rparr> 5 200))
     = 5 # 5 # replicate 126 0
   \<and> count_list (battery_current_history (fst (integrate_sample
      \<lparr>last_capacity = 1000, battery_current_history = replicate 128 0\<rparr> 5 200))) 5 = 2
   \<and> battery_current_history (fst (integrate_sample
      \<lparr>last_capacity = 1000, battery_current_history = replicate 128 0\<rparr> 5 200))
     \<noteq> 5 # replicate 127 0"
proof -
  have l: "length (battery_current_history
      \<lparr>last_capacity = 1000, battery_current_history = replicate 128 (0::real)\<rparr>) = 128"
    by simp
  have t: "tl (replicate 128 (0::real)) = replicate 127 0"
    by simp
  have h: "battery_current_history (fst (integrate_sample
      \<lparr>last_capacity = 1000, battery_current_history = replicate 128 0\<rparr> 5 200))
     = 5 # 5 # replicate 126 0"
    by (simp add: integrate_sample_closed [OF l] t)
  have r: "replicate 127 (0::real) = 0 # replicate 126 0"
    using replicate_Suc [of 126 "0::real"] by simp
  show ?thesis unfolding h r by simp
qed

subsection \<open>Failed sensor reads\<close>

text \<open>
  Claim C1, evaluated on the code. When the register read of \<open>get_current\<close> fails,
  \<open>i2c_read_word\<close> returns \<open>-1\<close> and \<open>get_current\<close> returns \<open>-current_lsb\<close>;
  when the calibration write fails it returns \<open>-255\<close>. The tick body integrates
  either value as a sample: the capacity changes and the value enters the window. A tick
  of 200 ms with a failed read, from 1000 mAh and the zero window, is shown in full.
\<close>

theorem failed_read_is_integrated:
  "get_current chip \<lparr>write_ret = 0, read_ret = - 1, read_data = d\<rparr> = - current_lsb chip
   \<and> get_current chip \<lparr>write_ret = - 1, read_ret = r, read_data = d\<rparr> = - 255
   \<and> last_capacity (fst (battery_update chip st sio
        \<lparr>write_ret = 0, read_ret = - 1, read_data = d\<rparr> ms))
      = last_capacity st - current_lsb chip * real (unat ms) / 3600000
   \<and> last_capacity (fst (battery_update chip st sio
        \<lparr>write_ret = - 1, read_ret = r, read_data = d\<rparr> ms))
      = last_capacity st - 255 * real (unat ms) / 3600000
   \<and> fst (battery_update
        \<lparr>i2c_bus = 3, cal_value = 26868, bus_voltage = 0, gain = 1,
          current_lsb = 0.1524, power_lsb = 0.003048\<rparr>
        \<lparr>last_capacity = 1000, battery_current_history = replicate 128 0\<rparr>
        \<lparr>write_ret = 0, read_ret = - 1, read_data = 0\<rparr>
        \<lparr>write_ret = 0, read_ret = - 1, read_data = 0\<rparr> 200)
      = \<lparr>last_capacity = 1000 - 0.1524 * 200 / 3600000,
         battery_current_history = (- 0.1524) # (- 0.1524) # replicate 126 0\<rparr>"
proof -
  have a: "get_current chip \<lparr>write_ret = 0, read_ret = - 1, read_data = d\<rparr> = - current_lsb chip"
    for chip d
    by (simp add: get_current_def i2c_write_word_def i2c_read_word_def Let_def)
  have b: "get_current chip \<lparr>write_ret = - 1, read_ret = r, read_data = d\<rparr> = - 255"
    by (simp add: get_current_def i2c_write_word_def)
  have c: "last_capacity (fst (battery_update chip st sio io ms))
      = last_capacity st + get_current chip io * real (unat ms) / 3600000" for io
    by (simp add: battery_update_def integrate_sample_def Let_def split_beta)
  have l: "length (battery_current_history
      \<lparr>last_capacity = 1000, battery_current_history = replicate 128 (0::real)\<rparr>) = 128"
    by simp
  have e: "fst (battery_update
        \<lparr>i2c_bus = 3, cal_value = 26868, bus_voltage = 0, gain = 1,
          current_lsb = 0.1524, power_lsb = 0.003048\<rparr>
        \<lparr>last_capacity = 1000, battery_current_history = replicate 128 0\<rparr>
        \<lparr>write_ret = 0, read_ret = - 1, read_data = 0\<rparr>
        \<lparr>write_ret = 0, read_ret = - 1, read_data = 0\<rparr> 200)
      = \<lparr>last_capacity = 1000 - 0.1524 * 200 / 3600000,
         battery_current_history = (- 0.1524) # (- 0.1524) # replicate 126 0\<rparr>"
    by (simp add: battery_update_def Let_def a integrate_sample_closed [OF l])
  show ?thesis unfolding c a b using e by simp
qed

text \<open>
  Claim C7, evaluated on the code. When the calibration write of the seed's bus voltage
  read fails, \<open>get_bus_voltage\<close> returns \<open>-255\<close>; when the register read fails
  it returns \<open>-0.004\<close>. In both cases \<open>estimate_battery_percentage\<close> clamps the
  result to 0, the seed capacity is 0 mAh, and this is the value a successful read of
  9.0 V (register word \<open>0x4650\<close>, on the wire \<open>0x5046\<close>) gives as well.
\<close>

theorem seed_read_failure_gives_zero:
  "get_bus_voltage chip \<lparr>write_ret = - 1, read_ret = r, read_data = d\<rparr> = - 255
   \<and> estimate_battery_percentage BATTERY_MIN_VOLTAGE chip
        \<lparr>write_ret = - 1, read_ret = r, read_data = d\<rparr> = 0
   \<and> get_bus_voltage chip \<lparr>write_ret = 0, read_ret = - 1, read_data = d\<rparr> = - 0.004
   \<and> estimate_battery_percentage BATTERY_MIN_VOLTAGE chip
        \<lparr>write_ret = 0, read_ret = - 1, read_data = d\<rparr> = 0
   \<and> last_capacity (initial_charge_state chip
        \<lparr>write_ret = - 1, read_ret = r, read_data = d\<rparr>) = 0
   \<and> estimate_battery_percentage BATTERY_MIN_VOLTAGE chip
        \<lparr>write_ret = 0, read_ret = 0, read_data = 0x5046\<rparr> = 0"
proof -
  have a: "get_bus_voltage chip \<lparr>write_ret = - 1, read_ret = r, read_data = d\<rparr> = - 255"
    by (simp add: get_bus_voltage_def i2c_write_word_def)
  have b: "get_bus_voltage chip \<lparr>write_ret = 0, read_ret = - 1, read_data = d\<rparr> = - 0.004"
    by (simp add: get_bus_voltage_def i2c_write_word_def i2c_read_word_def Let_def drop_bit_eq_div)
  have c: "get_bus_voltage chip \<lparr>write_ret = 0, read_ret = 0, read_data = 0x5046\<rparr> = 9"
    by (simp add: get_bus_voltage_def i2c_write_word_def i2c_read_word_def Let_def
        swap_bytes_def drop_bit_eq_div)
  show ?thesis
    unfolding estimate_battery_percentage_def initial_charge_state_def a b c
    by (simp add: battery_fraction_def BATTERY_MIN_VOLTAGE_def Let_def)
qed

subsection \<open>The shutdown trigger\<close>

lemma battery_handler_exit_iff:
  "(snd (battery_handler env g pct chg) = Exited (- 1)) =
     ((chg \<noteq> batt_charging_last g \<and> \<not> status_open_ok env) \<or>
      (int_cast (cast_overflow env) (c_round (pct * 100)) \<noteq> batt_percentage_last g
         \<and> \<not> capacity_open_ok env))"
  by (simp add: battery_handler_def Let_def split: option.split)

lemma battery_handler_power_off_count:
  "count_list (fst (battery_handler env g pct chg)) Power_off =
     (if snd (battery_handler env g pct chg) \<noteq> Exited (- 1)
         \<and> pct \<le> BATTERY_SHUTDOWN_LIMIT \<and> chg = 0 then 1 else 0)"
  by (simp add: battery_handler_def Let_def split: option.split)

lemma battery_pass_due:
  "BATTERY_UPDATE_INTERVAL \<le> ms_passed t \<Longrightarrow>
     fst (battery_pass chip st g t) =
       fst (battery_handler (callback_env t) g
             (fst (snd (battery_update chip st (shunt_io t) (current_io t) (ms_passed t))))
             (snd (snd (battery_update chip st (shunt_io t) (current_io t) (ms_passed t)))))"
  by (simp add: battery_pass_def split_beta split: handler_result.split)

lemma battery_pass_not_due:
  "ms_passed t < BATTERY_UPDATE_INTERVAL \<Longrightarrow> battery_pass chip st g t = ([], Running st g)"
  by (simp add: battery_pass_def flip: not_le)


lemma example_tick:
  "battery_update chip
     \<lparr>last_capacity = 225, battery_current_history = replicate 128 0\<rparr>
     \<lparr>write_ret = 0, read_ret = 0, read_data = 0\<rparr>
     \<lparr>write_ret = 0, read_ret = 0, read_data = 0\<rparr> 200
   = (\<lparr>last_capacity = 225, battery_current_history = replicate 128 0\<rparr>, 9 / 100, 0)"
proof -
  have l: "length (battery_current_history
      \<lparr>last_capacity = 225, battery_current_history = replicate 128 (0::real)\<rparr>) = 128"
    by simp
  have g: "get_current chip \<lparr>write_ret = 0, read_ret = 0, read_data = 0\<rparr> = 0" for chip
    by (simp add: get_current_def i2c_write_word_def i2c_read_word_def swap_bytes_def Let_def)
  have r: "(0::real) # 0 # replicate 126 0 = replicate 128 0"
    using replicate_Suc [of 127 "0::real"] replicate_Suc [of 126 "0::real"] by simp
  show ?thesis
    by (simp add: battery_update_def Let_def g integrate_sample_closed [OF l] r
        BATTERY_CAPACITY_MAH_def)
qed

lemma handler_first_call:
  "battery_handler
     \<lparr>status_open_ok = True, capacity_open_ok = True, reboot_ret = rr, cast_overflow = 0\<rparr>
     initial_globals (9 / 100) 0
   = ([Write_status ''Discharging'', Write_capacity 9, Power_off],
      case rr of None \<Rightarrow> Powered_off
      | Some r \<Rightarrow> Returned \<lparr>batt_charging_last = 0, batt_percentage_last = 9\<rparr>)"
  by (simp add: battery_handler_def Let_def initial_globals_def c_round_def int_cast_def
      BATTERY_SHUTDOWN_LIMIT_def split: option.split)

lemma handler_second_call:
  "battery_handler
     \<lparr>status_open_ok = True, capacity_open_ok = True, reboot_ret = Some r, cast_overflow = 0\<rparr>
     \<lparr>batt_charging_last = 0, batt_percentage_last = 9\<rparr> (9 / 100) 0
   = ([Power_off], Returned \<lparr>batt_charging_last = 0, batt_percentage_last = 9\<rparr>)"
  by (simp add: battery_handler_def Let_def c_round_def int_cast_def BATTERY_SHUTDOWN_LIMIT_def)

lemma handler_open_fails:
  "battery_handler
     \<lparr>status_open_ok = False, capacity_open_ok = True, reboot_ret = rr, cast_overflow = 0\<rparr>
     initial_globals (9 / 100) 0 = ([], Exited (- 1))"
  by (simp add: battery_handler_def Let_def initial_globals_def)

lemma example_pass_first:
  "battery_pass chip
     \<lparr>last_capacity = 225, battery_current_history = replicate 128 0\<rparr> initial_globals
     \<lparr>ms_passed = 200, shunt_io = \<lparr>write_ret = 0, read_ret = 0, read_data = 0\<rparr>,
       current_io = \<lparr>write_ret = 0, read_ret = 0, read_data = 0\<rparr>,
       callback_env = \<lparr>status_open_ok = True, capacity_open_ok = True,
                        reboot_ret = Some (- 1), cast_overflow = 0\<rparr>\<rparr>
   = ([Write_status ''Discharging'', Write_capacity 9, Power_off],
      Running \<lparr>last_capacity = 225, battery_current_history = replicate 128 0\<rparr>
        \<lparr>batt_charging_last = 0, batt_percentage_last = 9\<rparr>)"
  by (simp add: battery_pass_def BATTERY_UPDATE_INTERVAL_def example_tick handler_first_call)

lemma example_pass_second:
  "battery_pass chip
     \<lparr>last_capacity = 225, battery_current_history = replicate 128 0\<rparr>
     \<lparr>batt_charging_last = 0, batt_percentage_last = 9\<rparr>
     \<lparr>ms_passed = 200, shunt_io = \<lparr>write_ret = 0, read_ret = 0, read_data = 0\<rparr>,
       current_io = \<lparr>write_ret = 0, read_ret = 0, read_data = 0\<rparr>,
       callback_env = \<lparr>status_open_ok = True, capacity_open_ok = True,
                        reboot_ret = Some (- 1), cast_overflow = 0\<rparr>\<rparr>
   = ([Power_off],
      Running \<lparr>last_capacity = 225, battery_current_history = replicate 128 0\<rparr>
        \<lparr>batt_charging_last = 0, batt_percentage_last = 9\<rparr>)"
  by (simp add: battery_pass_def BATTERY_UPDATE_INTERVAL_def example_tick handler_second_call)

lemma example_two_passes:
  "battery_loop chip
     \<lparr>last_capacity = 225, battery_current_history = replicate 128 0\<rparr> initial_globals
     [\<lparr>ms_passed = 200, shunt_io = \<lparr>write_ret = 0, read_ret = 0, read_data = 0\<rparr>,
       current_io = \<lparr>write_ret = 0, read_ret = 0, read_data = 0\<rparr>,
       callback_env = \<lparr>status_open_ok = True, capacity_open_ok = True,
                        reboot_ret = Some (- 1), cast_overflow = 0\<rparr>\<rparr>,
      \<lparr>ms_passed = 200, shunt_io = \<lparr>write_ret = 0, read_ret = 0, read_data = 0\<rparr>,
       current_io = \<lparr>write_ret = 0, read_ret = 0, read_data = 0\<rparr>,
       callback_env = \<lparr>status_open_ok = True, capacity_open_ok = True,
                        reboot_ret = Some (- 1), cast_overflow = 0\<rparr>\<rparr>]
   = ([Write_status ''Discharging'', Write_capacity 9, Power_off, Power_off],
      Running \<lparr>last_capacity = 225, battery_current_history = replicate 128 0\<rparr>
        \<lparr>batt_charging_last = 0, batt_percentage_last = 9\<rparr>)"
  by (simp add: example_pass_first example_pass_second)

text \<open>
  Claim C6, as the code has it. A call of \<open>battery_handler\<close> ends in \<open>exit(-1)\<close>
  exactly when a file it has to rewrite cannot be opened: the status file when the
  charging flag differs from the one last written, the capacity file when the whole
  percentage does. A call that does not end so invokes the power-off action exactly once
  when the percentage is at most 0.1 and the charging flag is 0, and a call that ends in
  \<open>exit(-1)\<close>, or has a larger percentage or another flag, does not invoke it; with a
  charging flag other than 0 it is never invoked, whatever the percentage. With both
  files opening, percentage 0.09 and flag 0 invoke it once; percentage 0.09 and flag 1
  do not invoke it. A pass of the loop whose update is due performs the actions of the
  callback on the percentage and flag the update yields, and a pass whose update is not
  due performs none.
\<close>

theorem shutdown_trigger:
  "(snd (battery_handler env g pct chg) = Exited (- 1)) =
     ((chg \<noteq> batt_charging_last g \<and> \<not> status_open_ok env) \<or>
      (int_cast (cast_overflow env) (c_round (pct * 100)) \<noteq> batt_percentage_last g
         \<and> \<not> capacity_open_ok env))
   \<and> count_list (fst (battery_handler env g pct chg)) Power_off =
       (if snd (battery_handler env g pct chg) \<noteq> Exited (- 1)
           \<and> pct \<le> BATTERY_SHUTDOWN_LIMIT \<and> chg = 0 then 1 else 0)
   \<and> (chg \<noteq> 0 \<longrightarrow> count_list (fst (battery_handler env g pct chg)) Power_off = 0)
   \<and> (status_open_ok env \<and> capacity_open_ok env \<longrightarrow>
        count_list (fst (battery_handler env g 0.09 0)) Power_off = 1)
   \<and> count_list (fst (battery_handler env g 0.09 1)) Power_off = 0
   \<and> (BATTERY_UPDATE_INTERVAL \<le> ms_passed t \<longrightarrow>
        fst (battery_pass chip st g t) =
          fst (battery_handler (callback_env t) g
                (fst (snd (battery_update chip st (shunt_io t) (current_io t) (ms_passed t))))
                (snd (snd (battery_update chip st (shunt_io t) (current_io t) (ms_passed t))))))
   \<and> (ms_passed t < BATTERY_UPDATE_INTERVAL \<longrightarrow>
        battery_pass chip st g t = ([], Running st g))"
proof -
  note ex = battery_handler_exit_iff
  note cnt = battery_handler_power_off_count
  have c: "chg \<noteq> 0 \<longrightarrow> count_list (fst (battery_handler env g pct chg)) Power_off = 0"
    by (simp add: cnt)
  have d: "status_open_ok env \<and> capacity_open_ok env \<longrightarrow>
        count_list (fst (battery_handler env g 0.09 0)) Power_off = 1"
    by (simp add: cnt ex BATTERY_SHUTDOWN_LIMIT_def)
  have e: "count_list (fst (battery_handler env g 0.09 1)) Power_off = 0"
    by (simp add: cnt)
  have f: "BATTERY_UPDATE_INTERVAL \<le> ms_passed t \<longrightarrow>
        fst (battery_pass chip st g t) =
          fst (battery_handler (callback_env t) g
                (fst (snd (battery_update chip st (shunt_io t) (current_io t) (ms_passed t))))
                (snd (snd (battery_update chip st (shunt_io t) (current_io t) (ms_passed t)))))"
    using battery_pass_due by blast
  have h: "ms_passed t < BATTERY_UPDATE_INTERVAL \<longrightarrow>
        battery_pass chip st g t = ([], Running st g)"
    using battery_pass_not_due by blast
  from ex [of env g pct chg] cnt [of env g pct chg] c d e f h show ?thesis
    by (intro conjI)
qed

theorem shutdown_trigger_witness:
  "count_list (fst (battery_handler
      \<lparr>status_open_ok = True, capacity_open_ok = True, reboot_ret = None, cast_overflow = 0\<rparr>
      initial_globals 0.09 0)) Power_off = 1
   \<and> snd (battery_handler
      \<lparr>status_open_ok = False, capacity_open_ok = True, reboot_ret = None, cast_overflow = 0\<rparr>
      initial_globals 0.09 0) = Exited (- 1)
   \<and> count_list (fst (battery_handler
      \<lparr>status_open_ok = False, capacity_open_ok = True, reboot_ret = None, cast_overflow = 0\<rparr>
      initial_globals 0.09 0)) Power_off = 0
   \<and> count_list (fst (battery_handler
      \<lparr>status_open_ok = True, capacity_open_ok = True, reboot_ret = None, cast_overflow = 0\<rparr>
      initial_globals 0.09 1)) Power_off = 0
   \<and> count_list (fst (battery_pass
        \<lparr>i2c_bus = 3, cal_value = 26868, bus_voltage = 0, gain = 1,
          current_lsb = 0.1524, power_lsb = 0.003048\<rparr>
        \<lparr>last_capacity = 225, battery_current_history = replicate 128 0\<rparr> initial_globals
        \<lparr>ms_passed = 200, shunt_io = \<lparr>write_ret = 0, read_ret = 0, read_data = 0\<rparr>,
          current_io = \<lparr>write_ret = 0, read_ret = 0, read_data = 0\<rparr>,
          callback_env = \<lparr>status_open_ok = True, capacity_open_ok = True,
                           reboot_ret = None, cast_overflow = 0\<rparr>\<rparr>)) Power_off = 1
   \<and> battery_pass
        \<lparr>i2c_bus = 3, cal_value = 26868, bus_voltage = 0, gain = 1,
          current_lsb = 0.1524, power_lsb = 0.003048\<rparr>
        \<lparr>last_capacity = 225, battery_current_history = replicate 128 0\<rparr> initial_globals
        \<lparr>ms_passed = 100, shunt_io = \<lparr>write_ret = 0, read_ret = 0, read_data = 0\<rparr>,
          current_io = \<lparr>write_ret = 0, read_ret = 0, read_data = 0\<rparr>,
          callback_env = \<lparr>status_open_ok = True, capacity_open_ok = True,
                           reboot_ret = None, cast_overflow = 0\<rparr>\<rparr>
       = ([], Running \<lparr>last_capacity = 225, battery_current_history = replicate 128 0\<rparr>
                initial_globals)"
proof -
  let ?ok = "\<lparr>status_open_ok = True, capacity_open_ok = True, reboot_ret = None,
              cast_overflow = 0\<rparr>"
  let ?bad = "\<lparr>status_open_ok = False, capacity_open_ok = True, reboot_ret = None,
               cast_overflow = 0\<rparr>"
  let ?chip = "\<lparr>i2c_bus = 3, cal_value = 26868, bus_voltage = 0, gain = 1,
          current_lsb = 0.1524, power_lsb = 0.003048\<rparr>"
  let ?st = "\<lparr>last_capacity = 225, battery_current_history = replicate 128 (0::real)\<rparr>"
  let ?io = "\<lparr>write_ret = 0, read_ret = 0, read_data = 0\<rparr>"
  let ?due = "\<lparr>ms_passed = 200, shunt_io = ?io, current_io = ?io, callback_env = ?ok\<rparr>"
  let ?early = "\<lparr>ms_passed = 100, shunt_io = ?io, current_io = ?io, callback_env = ?ok\<rparr>"
  note t_ok = shutdown_trigger [of ?ok initial_globals "0.09" 0 ?due ?chip ?st]
  note t_bad = shutdown_trigger [of ?bad initial_globals "0.09" 0 ?early ?chip ?st]
  note t_chg = shutdown_trigger [of ?ok initial_globals "0.09" 1 ?due ?chip ?st]
  have o: "status_open_ok ?ok \<and> capacity_open_ok ?ok" by simp
  have w1: "count_list (fst (battery_handler ?ok initial_globals 0.09 0)) Power_off = 1"
    using t_ok o by blast
  have fails: "0 \<noteq> batt_charging_last initial_globals \<and> \<not> status_open_ok ?bad"
    by (simp add: initial_globals_def)
  have w2: "snd (battery_handler ?bad initial_globals 0.09 0) = Exited (- 1)"
    using t_bad fails by blast
  have "count_list (fst (battery_handler ?bad initial_globals 0.09 0)) Power_off =
       (if snd (battery_handler ?bad initial_globals 0.09 0) \<noteq> Exited (- 1)
           \<and> 0.09 \<le> BATTERY_SHUTDOWN_LIMIT \<and> (0::int) = 0 then 1 else 0)"
    using t_bad by blast
  hence w3: "count_list (fst (battery_handler ?bad initial_globals 0.09 0)) Power_off = 0"
    by (simp only: w2 simp_thms if_False)
  have one: "(1::int) \<noteq> 0" by simp
  have w4: "count_list (fst (battery_handler ?ok initial_globals 0.09 1)) Power_off = 0"
    using t_chg one by blast
  have due: "BATTERY_UPDATE_INTERVAL \<le> ms_passed ?due"
    by (simp add: BATTERY_UPDATE_INTERVAL_def)
  have "fst (battery_pass ?chip ?st initial_globals ?due) =
          fst (battery_handler (callback_env ?due) initial_globals
                (fst (snd (battery_update ?chip ?st (shunt_io ?due) (current_io ?due)
                   (ms_passed ?due))))
                (snd (snd (battery_update ?chip ?st (shunt_io ?due) (current_io ?due)
                   (ms_passed ?due)))))"
    using t_ok due by blast
  hence "fst (battery_pass ?chip ?st initial_globals ?due) =
          fst (battery_handler ?ok initial_globals 0.09 0)"
    by (simp add: example_tick)
  hence w5: "count_list (fst (battery_pass ?chip ?st initial_globals ?due)) Power_off = 1"
    using w1 by (simp only:)
  have early: "ms_passed ?early < BATTERY_UPDATE_INTERVAL"
    by (simp add: BATTERY_UPDATE_INTERVAL_def)
  have w6: "battery_pass ?chip ?st initial_globals ?early = ([], Running ?st initial_globals)"
    using t_bad early by blast
  from w1 w2 w3 w4 w5 w6 show ?thesis by (intro conjI)
qed

text \<open>
  Claim C6 as the claim words it does not hold in every execution. On the first update,
  with percentage 0.09 and charging false, a status file that cannot be opened ends the
  process with \<open>exit(-1)\<close> before the shutdown check, and no power-off is invoked.
  And when the \<open>reboot\<close> call fails and returns, the loop goes on: two due passes at
  percentage 0.09 with charging false invoke the power-off action twice, and the loop is
  still running.
\<close>

theorem shutdown_counterexample:
  "battery_handler
      \<lparr>status_open_ok = False, capacity_open_ok = True, reboot_ret = None, cast_overflow = 0\<rparr>
      initial_globals 0.09 0 = ([], Exited (- 1))
   \<and> 0.09 \<le> BATTERY_SHUTDOWN_LIMIT
   \<and> count_list (fst (battery_handler
      \<lparr>status_open_ok = False, capacity_open_ok = True, reboot_ret = None, cast_overflow = 0\<rparr>
      initial_globals 0.09 0)) Power_off \<noteq> 1
   \<and> battery_loop
     \<lparr>i2c_bus = 3, cal_value = 26868, bus_voltage = 0, gain = 1,
       current_lsb = 0.1524, power_lsb = 0.003048\<rparr>
     \<lparr>last_capacity = 225, battery_current_history = replicate 128 0\<rparr> initial_globals
     [\<lparr>ms_passed = 200, shunt_io = \<lparr>write_ret = 0, read_ret = 0, read_data = 0\<rparr>,
       current_io = \<lparr>write_ret = 0, read_ret = 0, read_data = 0\<rparr>,
       callback_env = \<lparr>status_open_ok = True, capacity_open_ok = True,
                        reboot_ret = Some (- 1), cast_overflow = 0\<rparr>\<rparr>,
      \<lparr>ms_passed = 200, shunt_io = \<lparr>write_ret = 0, read_ret = 0, read_data = 0\<rparr>,
       current_io = \<lparr>write_ret = 0, read_ret = 0, read_data = 0\<rparr>,
       callback_env = \<lparr>status_open_ok = True, capacity_open_ok = True,
                        reboot_ret = Some (- 1), cast_overflow = 0\<rparr>\<rparr>]
   = ([Write_status ''Discharging'', Write_capacity 9, Power_off, Power_off],
      Running \<lparr>last_capacity = 225, battery_current_history = replicate 128 0\<rparr>
        \<lparr>batt_charging_last = 0, batt_percentage_last = 9\<rparr>)"
proof -
  have a: "battery_handler
      \<lparr>status_open_ok = False, capacity_open_ok = True, reboot_ret = None, cast_overflow = 0\<rparr>
      initial_globals 0.09 0 = ([], Exited (- 1))"
    by (simp add: battery_handler_def Let_def initial_globals_def)
  have b: "(0.09::real) \<le> BATTERY_SHUTDOWN_LIMIT"
    by (simp add: BATTERY_SHUTDOWN_LIMIT_def)
  have c: "count_list (fst (battery_handler
      \<lparr>status_open_ok = False, capacity_open_ok = True, reboot_ret = None, cast_overflow = 0\<rparr>
      initial_globals 0.09 0)) Power_off \<noteq> 1"
    unfolding a by simp
  from a b c example_two_passes show ?thesis by (intro conjI)
qed

end
